theory Spec2Isabelle
  imports Main
begin

section \<open>Strings and the pieces of \<open>urllib.parse\<close> the crawler calls\<close>

text \<open>
  Python strings are modelled as \<open>string\<close>: a list of 8-bit characters, read as the code
  points U+0000 to U+00FF; texts with other code points are outside the model. On these,
  \<open>\d\<close> of \<open>re\<close> matches exactly \<open>0\<close> to \<open>9\<close> and \<open>[a-z-]\<close> exactly the lowercase
  ASCII letters and the dash.

  \<open>urlparse\<close>, \<open>urljoin\<close> and their helpers belong to the standard library (CPython 3.11,
  \<open>Lib/urllib/parse.py\<close>); they are transcribed here statement by statement, with the
  default \<open>allow_fragments=True\<close> every call of the crawler uses. Two functions they
  call are not transcribed and are parameters of the model:
  \<^item> \<open>ipv6_address h\<close> says whether \<open>ipaddress.ip_address(h)\<close> returns an IPv6 address
    (it raises ValueError on any other text, and an IPv4 address in brackets is refused);
  \<^item> \<open>nfkc\<close> is \<open>unicodedata.normalize('NFKC', _)\<close>.
\<close>

record pylib =
  ipv6_address :: "string \<Rightarrow> bool"
  nfkc :: "string \<Rightarrow> string"

datatype error = ValueError

definition is_digit :: "char \<Rightarrow> bool" where
  "is_digit c = (c \<in> set ''0123456789'')"

definition is_lower :: "char \<Rightarrow> bool" where
  "is_lower c = (c \<in> set ''abcdefghijklmnopqrstuvwxyz'')"

definition is_upper :: "char \<Rightarrow> bool" where
  "is_upper c = (c \<in> set ''ABCDEFGHIJKLMNOPQRSTUVWXYZ'')"

definition is_ascii_alpha :: "char \<Rightarrow> bool" where
  "is_ascii_alpha c = (is_lower c \<or> is_upper c)"

text \<open>\<open>scheme_chars\<close>: letters, digits and \<open>+-.\<close>\<close>

definition is_scheme_char :: "char \<Rightarrow> bool" where
  "is_scheme_char c = (is_lower c \<or> is_upper c \<or> is_digit c \<or> c \<in> set ''+-.'')"

definition lower_char :: "char \<Rightarrow> char" where
  "lower_char c = (if is_upper c then char_of (of_char c + (32::nat)) else c)"

text \<open>\<open>_WHATWG_C0_CONTROL_OR_SPACE\<close>: the code points 0 to 0x20.\<close>

definition is_c0_or_space :: "char \<Rightarrow> bool" where
  "is_c0_or_space c = (of_char c \<le> (32::nat))"

definition lstrip_c0 :: "string \<Rightarrow> string" where
  "lstrip_c0 s = dropWhile is_c0_or_space s"

definition strip_c0 :: "string \<Rightarrow> string" where
  "strip_c0 s = rev (dropWhile is_c0_or_space (rev (dropWhile is_c0_or_space s)))"

text \<open>\<open>_UNSAFE_URL_BYTES_TO_REMOVE\<close>: tab, carriage return, line feed.\<close>

definition remove_unsafe :: "string \<Rightarrow> string" where
  "remove_unsafe s = filter (\<lambda>c. c \<notin> {CHR 0x09, CHR 0x0D, CHR 0x0A}) s"

text \<open>
  \<open>s.split(c, 1)\<close> when \<open>c\<close> occurs in \<open>s\<close>, and \<open>s.partition(c)\<close> without its middle:
  the text before the first \<open>c\<close> and the text after it.
\<close>

definition before :: "char \<Rightarrow> string \<Rightarrow> string" where
  "before c s = takeWhile (\<lambda>x. x \<noteq> c) s"

definition after :: "char \<Rightarrow> string \<Rightarrow> string" where
  "after c s = drop 1 (dropWhile (\<lambda>x. x \<noteq> c) s)"

text \<open>\<open>s.split(c)\<close>: every piece between two occurrences of \<open>c\<close>, empty pieces kept.\<close>

fun split_on :: "char \<Rightarrow> string \<Rightarrow> string list" where
  "split_on c [] = [[]]"
| "split_on c (x # xs) =
     (if x = c then [] # split_on c xs
      else (case split_on c xs of [] \<Rightarrow> [[x]] | p # ps \<Rightarrow> (x # p) # ps))"

text \<open>\<open>sep.join(parts)\<close>\<close>

fun join :: "string \<Rightarrow> string list \<Rightarrow> string" where
  "join sep [] = []"
| "join sep [p] = p"
| "join sep (p # q # ps) = p @ sep @ join sep (q # ps)"

subsection \<open>\<open>urlsplit\<close>\<close>

text \<open>
  The scheme prefix: \<open>i = url.find(':')\<close>, and when \<open>i > 0\<close>, the first character is an
  ASCII letter and every character of \<open>url[:i]\<close> is a scheme character, the scheme is
  \<open>url[:i].lower()\<close> and the rest is \<open>url[i+1:]\<close>; otherwise the default scheme stays.
\<close>

definition split_scheme :: "string \<Rightarrow> string \<Rightarrow> string \<times> string" where
  "split_scheme dflt url =
     (let pre = before CHR '':'' url in
      if CHR '':'' \<in> set url \<and> pre \<noteq> [] \<and> is_ascii_alpha (hd url) \<and> list_all is_scheme_char pre
      then (map lower_char pre, after CHR '':'' url)
      else (dflt, url))"

text \<open>\<open>_splitnetloc(url, 2)\<close>: the domain runs from index 2 to the first of \<open>/?#\<close>.\<close>

definition is_netloc_delim :: "char \<Rightarrow> bool" where
  "is_netloc_delim c = (c \<in> set ''/?#'')"

definition splitnetloc :: "string \<Rightarrow> string \<times> string" where
  "splitnetloc url =
     (takeWhile (\<lambda>c. \<not> is_netloc_delim c) (drop 2 url),
      dropWhile (\<lambda>c. \<not> is_netloc_delim c) (drop 2 url))"

text \<open>
  \<open>_check_bracketed_host\<close>: a host starting with \<open>v\<close> must match
  \<open>\Av[a-fA-F0-9]+\..+\Z\<close>; any other host goes to \<open>ipaddress.ip_address\<close> and must
  be an IPv6 address.
\<close>

definition is_hex :: "char \<Rightarrow> bool" where
  "is_hex c = (c \<in> set ''abcdefABCDEF0123456789'')"

definition ipvfuture_ok :: "string \<Rightarrow> bool" where
  "ipvfuture_ok h =
     (case h of
        [] \<Rightarrow> False
      | v # r \<Rightarrow>
          (let hx = takeWhile is_hex r; r' = dropWhile is_hex r in
           v = CHR ''v'' \<and> hx \<noteq> [] \<and>
           (case r' of
              [] \<Rightarrow> False
            | d # t \<Rightarrow> d = CHR ''.'' \<and> t \<noteq> [] \<and> CHR 0x0A \<notin> set t)))"

definition check_bracketed_host :: "pylib \<Rightarrow> string \<Rightarrow> bool" where
  "check_bracketed_host py h =
     (if take 1 h = ''v'' then ipvfuture_ok h else ipv6_address py h)"

text \<open>
  \<open>_checknetloc\<close>: nothing to check when the netloc is empty or ASCII. Otherwise the
  netloc without its \<open>@:#?\<close> is normalised, and when that changes it, none of
  \<open>/?#@:\<close> may occur in the normal form. The value is False where the function raises
  ValueError.
\<close>

definition is_ascii :: "string \<Rightarrow> bool" where
  "is_ascii s = list_all (\<lambda>c. of_char c < (128::nat)) s"

definition checknetloc :: "pylib \<Rightarrow> string \<Rightarrow> bool" where
  "checknetloc py netloc =
     (if netloc = [] then True
      else if is_ascii netloc then True
      else (let n = filter (\<lambda>c. c \<notin> set ''@:#?'') netloc;
                netloc2 = nfkc py n
            in if n = netloc2 then True
               else list_all (\<lambda>c. c \<notin> set netloc2) ''/?#@:''))"

text \<open>The result of \<open>urlsplit\<close> is the tuple (scheme, netloc, url, query, fragment).\<close>

definition urlsplit ::
  "pylib \<Rightarrow> string \<Rightarrow> string \<Rightarrow> error + (string \<times> string \<times> string \<times> string \<times> string)"
where
  "urlsplit py url0 scheme0 =
     (let url1 = remove_unsafe (lstrip_c0 url0);
          scheme1 = remove_unsafe (strip_c0 scheme0);
          (scheme, url2) = split_scheme scheme1 url1;
          (netloc, url3) = (if take 2 url2 = ''//'' then splitnetloc url2 else ([], url2));
          lb = (CHR ''['' \<in> set netloc);
          rb = (CHR '']'' \<in> set netloc)
      in if (lb \<and> \<not> rb) \<or> (rb \<and> \<not> lb) then Inl ValueError
         else if lb \<and> rb \<and> \<not> check_bracketed_host py (before CHR '']'' (after CHR ''['' netloc))
         then Inl ValueError
         else
           (let (url4, fragment) =
                  (if CHR ''#'' \<in> set url3 then (before CHR ''#'' url3, after CHR ''#'' url3)
                   else (url3, []));
                (url5, query) =
                  (if CHR ''?'' \<in> set url4 then (before CHR ''?'' url4, after CHR ''?'' url4)
                   else (url4, []))
            in if checknetloc py netloc then Inr (scheme, netloc, url5, query, fragment)
               else Inl ValueError))"

subsection \<open>\<open>urlparse\<close>\<close>

record parse_result =
  scheme :: string
  netloc :: string
  path :: string
  params :: string
  query :: string
  fragment :: string

definition uses_params :: "string list" where
  "uses_params = ['''', ''ftp'', ''hdl'', ''prospero'', ''http'', ''imap'',
                  ''https'', ''shttp'', ''rtsp'', ''rtsps'', ''rtspu'', ''sip'',
                  ''sips'', ''mms'', ''sftp'', ''tel'']"

text \<open>
  \<open>_splitparams\<close>: the parameters start at the first \<open>;\<close> of the last path segment
  (\<open>url.find(';', url.rfind('/'))\<close>), or of the whole text when it has no slash.
  \<open>urlparse\<close> calls it only when \<open>;\<close> occurs in the text, so in the second branch
  \<open>find\<close> succeeds.
\<close>

definition splitparams :: "string \<Rightarrow> string \<times> string" where
  "splitparams url =
     (if CHR ''/'' \<in> set url then
        (let r = length url - Suc (length (takeWhile (\<lambda>c. c \<noteq> CHR ''/'') (rev url)));
             tl_seg = drop r url
         in if CHR '';'' \<notin> set tl_seg then (url, [])
            else (let i = r + length (before CHR '';'' tl_seg) in (take i url, drop (Suc i) url)))
      else (before CHR '';'' url, after CHR '';'' url))"

definition urlparse :: "pylib \<Rightarrow> string \<Rightarrow> string \<Rightarrow> error + parse_result" where
  "urlparse py url scheme0 =
     (case urlsplit py url scheme0 of
        Inl e \<Rightarrow> Inl e
      | Inr (sch, nl, u, q, f) \<Rightarrow>
          (let (u', ps) = (if sch \<in> set uses_params \<and> CHR '';'' \<in> set u then splitparams u
                           else (u, []))
           in Inr \<lparr>scheme = sch, netloc = nl, path = u', params = ps, query = q, fragment = f\<rparr>))"

subsection \<open>\<open>urlunparse\<close> and \<open>urljoin\<close>\<close>

definition uses_relative :: "string list" where
  "uses_relative = ['''', ''ftp'', ''http'', ''gopher'', ''nntp'', ''imap'',
                    ''wais'', ''file'', ''https'', ''shttp'', ''mms'',
                    ''prospero'', ''rtsp'', ''rtsps'', ''rtspu'', ''sftp'',
                    ''svn'', ''svn+ssh'', ''ws'', ''wss'']"

definition uses_netloc :: "string list" where
  "uses_netloc = ['''', ''ftp'', ''http'', ''gopher'', ''nntp'', ''telnet'',
                  ''imap'', ''wais'', ''file'', ''mms'', ''https'', ''shttp'',
                  ''snews'', ''prospero'', ''rtsp'', ''rtsps'', ''rtspu'', ''rsync'',
                  ''svn'', ''svn+ssh'', ''sftp'', ''nfs'', ''git'', ''git+ssh'',
                  ''ws'', ''wss'']"

definition urlunsplit :: "string \<Rightarrow> string \<Rightarrow> string \<Rightarrow> string \<Rightarrow> string \<Rightarrow> string" where
  "urlunsplit sch nl url q f =
     (let url1 = (if nl \<noteq> [] \<or> (sch \<noteq> [] \<and> sch \<in> set uses_netloc) \<or> take 2 url = ''//''
                  then ''//'' @ nl @ (if url \<noteq> [] \<and> take 1 url \<noteq> ''/'' then ''/'' @ url else url)
                  else url);
          url2 = (if sch \<noteq> [] then sch @ '':'' @ url1 else url1);
          url3 = (if q \<noteq> [] then url2 @ ''?'' @ q else url2)
      in if f \<noteq> [] then url3 @ ''#'' @ f else url3)"

definition urlunparse :: "parse_result \<Rightarrow> string" where
  "urlunparse c =
     urlunsplit (scheme c) (netloc c)
       (if params c \<noteq> [] then path c @ '';'' @ params c else path c) (query c) (fragment c)"

text \<open>
  \<open>segments[1:-1] = filter(None, segments[1:-1])\<close>: the empty segments strictly between
  the first and the last are dropped.
\<close>

definition drop_inner_empty :: "string list \<Rightarrow> string list" where
  "drop_inner_empty segs =
     (if length segs \<le> 2 then segs
      else hd segs # filter (\<lambda>g. g \<noteq> []) (butlast (tl segs)) @ [last segs])"

text \<open>
  The loop over the segments: \<open>..\<close> pops (nothing when empty), \<open>.\<close> is skipped.
  (\<open>split\<close> returns at least one piece, so the \<open>base_parts[-1]\<close> and
  \<open>segments[-1]\<close> of \<open>urljoin\<close> always exist.)
\<close>

fun resolve_segments :: "string list \<Rightarrow> string list \<Rightarrow> string list" where
  "resolve_segments resolved [] = resolved"
| "resolve_segments resolved (seg # segs) =
     (if seg = ''..'' then resolve_segments (butlast resolved) segs
      else if seg = ''.'' then resolve_segments resolved segs
      else resolve_segments (resolved @ [seg]) segs)"

text \<open>
  The end of \<open>urljoin\<close>: the segments are resolved, an empty segment is added after a
  last segment \<open>.\<close> or \<open>..\<close>, and the path is \<open>'/'.join(resolved_path) or '/'\<close>.
\<close>

definition join_resolved :: "string list \<Rightarrow> string" where
  "join_resolved segments =
     (let resolved0 = resolve_segments [] segments;
          resolved_path = (if last segments \<in> set [''.'', ''..'']
                           then resolved0 @ [[]] else resolved0);
          joined = join ''/'' resolved_path
      in if joined = [] then ''/'' else joined)"

definition urljoin :: "pylib \<Rightarrow> string \<Rightarrow> string \<Rightarrow> error + string" where
  "urljoin py base url =
     (if base = [] then Inr url
      else if url = [] then Inr base
      else (case urlparse py base [] of
              Inl e \<Rightarrow> Inl e
            | Inr b \<Rightarrow>
               (case urlparse py url (scheme b) of
                  Inl e \<Rightarrow> Inl e
                | Inr u \<Rightarrow>
                    if scheme u \<noteq> scheme b \<or> scheme u \<notin> set uses_relative then Inr url
                    else if scheme u \<in> set uses_netloc \<and> netloc u \<noteq> [] then Inr (urlunparse u)
                    else
                      (let nl = (if scheme u \<in> set uses_netloc then netloc b else netloc u) in
                       if path u = [] \<and> params u = [] then
                         Inr (urlunparse
                                (u\<lparr>netloc := nl, path := path b, params := params b,
                                   query := (if query u = [] then query b else query u)\<rparr>))
                       else
                         (let base_parts0 = split_on CHR ''/'' (path b);
                              base_parts = (if last base_parts0 \<noteq> [] then butlast base_parts0
                                            else base_parts0);
                              segments = (if take 1 (path u) = ''/'' then split_on CHR ''/'' (path u)
                                          else drop_inner_empty
                                                 (base_parts @ split_on CHR ''/'' (path u)))
                          in Inr (urlunparse
                                    (u\<lparr>netloc := nl, path := join_resolved segments\<rparr>)))))))"

section \<open>\<open>url_filter.py\<close>: URL filtering and classification\<close>

datatype URLType = HOME | CATEGORY | SUBCATEGORY | PRODUCT | PAGINATION | INVALID

text \<open>
  \<open>$\<close> without \<open>re.MULTILINE\<close> matches at the end of the text and just before a line
  feed that ends the text.
\<close>

definition at_end :: "string \<Rightarrow> bool" where
  "at_end s = (s = [] \<or> s = [CHR 0x0A])"

text \<open>
  \<open>category_pattern = re.compile(r'^/([a-z-]+)/(\d+)$')\<close>, used with \<open>match\<close>: the two
  groups, or None. Both repetitions are greedy and the character that must follow each
  is outside its class, so the longest run is the only candidate.
\<close>

definition is_slug_char :: "char \<Rightarrow> bool" where
  "is_slug_char c = (is_lower c \<or> c = CHR ''-'')"

definition category_pattern_match :: "string \<Rightarrow> (string \<times> string) option" where
  "category_pattern_match p =
     (case p of
        [] \<Rightarrow> None
      | c # r \<Rightarrow>
          (let slug = takeWhile is_slug_char r; r1 = dropWhile is_slug_char r in
           if c \<noteq> CHR ''/'' \<or> slug = [] then None
           else (case r1 of
                   [] \<Rightarrow> None
                 | c1 # r2 \<Rightarrow>
                     (let ds = takeWhile is_digit r2; r3 = dropWhile is_digit r2 in
                      if c1 = CHR ''/'' \<and> ds \<noteq> [] \<and> at_end r3 then Some (slug, ds)
                      else None))))"

text \<open>
  \<open>re.search(r'-d(\d+)$', path)\<close>: the pattern is tried at each position from the
  left; the value is group 1 of the first match.
\<close>

definition product_suffix_at :: "string \<Rightarrow> string option" where
  "product_suffix_at s =
     (if take 2 s = ''-d'' \<and> takeWhile is_digit (drop 2 s) \<noteq> [] \<and>
         at_end (dropWhile is_digit (drop 2 s))
      then Some (takeWhile is_digit (drop 2 s)) else None)"

fun product_suffix_search :: "string \<Rightarrow> string option" where
  "product_suffix_search [] = None"
| "product_suffix_search (c # cs) =
     (case product_suffix_at (c # cs) of
        Some ds \<Rightarrow> Some ds
      | None \<Rightarrow> product_suffix_search cs)"

text \<open>
  \<open>int(s)\<close> on a text of ASCII digits; CPython 3.11 refuses more than 4300 digits with
  ValueError.
\<close>

definition digit_val :: "char \<Rightarrow> int" where
  "digit_val c = int (of_char c) - 48"

definition int_of_digits :: "string \<Rightarrow> int" where
  "int_of_digits ds = foldl (\<lambda>a c. 10 * a + digit_val c) 0 ds"

definition py_int :: "string \<Rightarrow> error + int" where
  "py_int ds = (if length ds > 4300 then Inl ValueError else Inr (int_of_digits ds))"

text \<open>
  \<open>URLFilter.base_url\<close>: every filter of the program is built by \<open>URLFilter()\<close>, with the
  default.
\<close>

definition base_url :: string where
  "base_url = ''https://www.ouedkniss.com''"

definition is_valid_domain :: "pylib \<Rightarrow> string \<Rightarrow> error + bool" where
  "is_valid_domain py url =
     (case urlparse py url [] of
        Inl e \<Rightarrow> Inl e
      | Inr parsed \<Rightarrow> Inr (netloc parsed \<in> set [''www.ouedkniss.com'', ''ouedkniss.com'', []]))"

definition normalize_url :: "pylib \<Rightarrow> string \<Rightarrow> error + string" where
  "normalize_url py url = (if take 1 url = ''/'' then urljoin py base_url url else Inr url)"

definition classify_url :: "pylib \<Rightarrow> string \<Rightarrow> error + URLType" where
  "classify_url py url =
     (case is_valid_domain py url of
        Inl e \<Rightarrow> Inl e
      | Inr ok \<Rightarrow>
          if \<not> ok then Inr INVALID
          else (case urlparse py url [] of
                  Inl e \<Rightarrow> Inl e
                | Inr parsed \<Rightarrow>
                    if path parsed = ''/'' \<or> path parsed = [] then Inr HOME
                    else if product_suffix_search (path parsed) \<noteq> None then Inr PRODUCT
                    else (case category_pattern_match (path parsed) of
                            Some (category_path, page_num) \<Rightarrow>
                              if count_list category_path CHR ''-'' = 0 then Inr CATEGORY
                              else Inr SUBCATEGORY
                          | None \<Rightarrow> Inr INVALID)))"

definition extract_category_info ::
  "pylib \<Rightarrow> string \<Rightarrow> error + (string list \<times> int) option"
where
  "extract_category_info py url =
     (case urlparse py url [] of
        Inl e \<Rightarrow> Inl e
      | Inr parsed \<Rightarrow>
          (case category_pattern_match (path parsed) of
             None \<Rightarrow> Inr None
           | Some (category_path, digits) \<Rightarrow>
               (case py_int digits of
                  Inl e \<Rightarrow> Inl e
                | Inr page_num \<Rightarrow> Inr (Some (split_on CHR ''-'' category_path, page_num)))))"


definition should_crawl :: "pylib \<Rightarrow> string \<Rightarrow> error + bool" where
  "should_crawl py url =
     (case classify_url py url of
        Inl e \<Rightarrow> Inl e
      | Inr url_type \<Rightarrow> Inr (url_type \<in> set [HOME, CATEGORY, SUBCATEGORY, PRODUCT]))"

section \<open>\<open>settings.py\<close> and \<open>crawler.py\<close>: the crawler\<close>

text \<open>
  The fields of \<open>ScraperConfig\<close> the crawl reads, and the instance \<open>Config.scraper\<close>,
  built with the defaults. (\<open>RATE_LIMIT_DELAY\<close>, \<open>REQUEST_TIMEOUT\<close>, \<open>USER_AGENT\<close> and
  \<open>CONCURRENT_REQUESTS\<close> only shape when and how a request goes out.)
\<close>

record ScraperConfig =
  BASE_URL :: string
  MAX_RETRIES :: int

definition Config_scraper :: ScraperConfig where
  "Config_scraper = \<lparr>BASE_URL = ''https://www.ouedkniss.com'', MAX_RETRIES = 3\<rparr>"

text \<open>
  What one \<open>async with self.session.get(url) as response\<close> block does: a response with
  its status and text, \<open>asyncio.TimeoutError\<close>, or any other exception (the
  \<open>except Exception\<close> branch), be it raised by the request or while the text is read.
\<close>

datatype outcome = Response nat string | Timeout | TransportError

text \<open>The calls of \<open>asyncio.sleep\<close>: the pacing delay and the backoff with its seconds.\<close>

datatype sleep = RateLimitDelay | Backoff nat

text \<open>
  The world outside the program:
  \<^item> \<open>server n url\<close> is the outcome of the request for \<open>url\<close> when \<open>n\<close> requests
    have been made before it;
  \<^item> \<open>anchors html\<close> is the list of \<open>href\<close> values of
    \<open>BeautifulSoup(html, 'html.parser').find_all('a', href=True)\<close>, in document order;
  \<^item> \<open>stdlib\<close> holds the two library functions \<open>urlsplit\<close> takes as parameters.
\<close>

record env =
  config :: ScraperConfig
  server :: "nat \<Rightarrow> string \<Rightarrow> outcome"
  anchors :: "string \<Rightarrow> string list"
  stdlib :: pylib

text \<open>
  The crawler object: its two sets, and three traces that record what it does: the
  argument of every call of \<open>fetch_page\<close>, the URL of every request, and every sleep.
  Logging is left out: it changes neither the sets nor what is returned.
\<close>

record crawler =
  visited_urls :: "string set"
  product_urls :: "string set"
  fetched :: "string list"
  requests :: "string list"
  sleeps :: "sleep list"

definition new_crawler :: crawler where
  "new_crawler = \<lparr>visited_urls = {}, product_urls = {}, fetched = [], requests = [], sleeps = []\<rparr>"

subsection \<open>\<open>fetch_page\<close>\<close>

text \<open>\<open>if attempt < self.config.MAX_RETRIES - 1: await asyncio.sleep(2 ** attempt)\<close>\<close>

definition backoff :: "env \<Rightarrow> nat \<Rightarrow> crawler \<Rightarrow> crawler" where
  "backoff e attempt c =
     (if int attempt < MAX_RETRIES (config e) - 1
      then c\<lparr>sleeps := sleeps c @ [Backoff (2 ^ attempt)]\<rparr> else c)"

text \<open>
  The body of \<open>for attempt in range(self.config.MAX_RETRIES)\<close>, over the attempts that
  remain; after the last one the function returns None.
\<close>

fun fetch_attempts :: "env \<Rightarrow> string \<Rightarrow> nat list \<Rightarrow> crawler \<Rightarrow> string option \<times> crawler" where
  "fetch_attempts e url [] c = (None, c)"
| "fetch_attempts e url (attempt # rest) c =
     (let c1 = c\<lparr>sleeps := sleeps c @ [RateLimitDelay]\<rparr>;
          c2 = c1\<lparr>requests := requests c1 @ [url]\<rparr>
      in case server e (length (requests c1)) url of
           Response status text \<Rightarrow>
             if status = 200 then (Some text, c2)
             else if status = 404 then (None, c2)
             else fetch_attempts e url rest (backoff e attempt c2)
         | Timeout \<Rightarrow> fetch_attempts e url rest (backoff e attempt c2)
         | TransportError \<Rightarrow> fetch_attempts e url rest (backoff e attempt c2))"

definition fetch_page :: "env \<Rightarrow> string \<Rightarrow> crawler \<Rightarrow> string option \<times> crawler" where
  "fetch_page e url c =
     fetch_attempts e url [0..<nat (MAX_RETRIES (config e))] (c\<lparr>fetched := fetched c @ [url]\<rparr>)"

subsection \<open>\<open>extract_links\<close> and \<open>crawl_page\<close>\<close>

text \<open>
  The loop of \<open>extract_links\<close> over the anchors. A ValueError of \<open>urljoin\<close> or
  \<open>urlparse\<close> is not caught anywhere in the crawler: it ends the call.
\<close>

fun links_of :: "pylib \<Rightarrow> string \<Rightarrow> string list \<Rightarrow> error + string list" where
  "links_of py base [] = Inr []"
| "links_of py base (href # hrefs) =
     (case urljoin py base href of
        Inl x \<Rightarrow> Inl x
      | Inr absolute_url \<Rightarrow>
          (case normalize_url py absolute_url of
             Inl x \<Rightarrow> Inl x
           | Inr normalized_url \<Rightarrow>
               (case should_crawl py normalized_url of
                  Inl x \<Rightarrow> Inl x
                | Inr ok \<Rightarrow>
                    (case links_of py base hrefs of
                       Inl x \<Rightarrow> Inl x
                     | Inr links \<Rightarrow> Inr (if ok then normalized_url # links else links)))))"

definition extract_links :: "env \<Rightarrow> string \<Rightarrow> string \<Rightarrow> error + string list" where
  "extract_links e html base = links_of (stdlib e) base (anchors e html)"

text \<open>
  A function of the crawler returns its value, or the exception it raises, together
  with the crawler as the call leaves it.
\<close>

definition crawl_page :: "env \<Rightarrow> string \<Rightarrow> crawler \<Rightarrow> (error + string list) \<times> crawler" where
  "crawl_page e url c =
     (if url \<in> visited_urls c then (Inr [], c)
      else
        (let c1 = c\<lparr>visited_urls := insert url (visited_urls c)\<rparr>;
             (html, c2) = fetch_page e url c1
         in case html of
              None \<Rightarrow> (Inr [], c2)
            | Some h \<Rightarrow>
                if h = [] then (Inr [], c2)
                else (case classify_url (stdlib e) url of
                        Inl x \<Rightarrow> (Inl x, c2)
                      | Inr url_type \<Rightarrow>
                          if url_type = PRODUCT
                          then (Inr [], c2\<lparr>product_urls := insert url (product_urls c2)\<rparr>)
                          else (case extract_links e h url of
                                  Inl x \<Rightarrow> (Inl x, c2)
                                | Inr links \<Rightarrow>
                                    (Inr (filter (\<lambda>link. link \<notin> visited_urls c2) links), c2)))))"

subsection \<open>\<open>crawl_category\<close>\<close>

text \<open>\<open>str(n)\<close> for an integer, as the f-string formats the page number.\<close>

definition digit_char :: "nat \<Rightarrow> char" where
  "digit_char d = char_of (48 + d)"

fun str_nat :: "nat \<Rightarrow> string" where
  "str_nat n = (if n < 10 then [digit_char n] else str_nat (n div 10) @ [digit_char (n mod 10)])"

declare str_nat.simps [simp del]

definition str_int :: "int \<Rightarrow> string" where
  "str_int i = (if i < 0 then ''-'' @ str_nat (nat (- i)) else str_nat (nat i))"

text \<open>\<open>f"{self.config.BASE_URL}/{base_category}/{page}"\<close>\<close>

definition page_url :: "env \<Rightarrow> string \<Rightarrow> int \<Rightarrow> string" where
  "page_url e base_category page = BASE_URL (config e) @ ''/'' @ base_category @ ''/'' @ str_int page"

text \<open>
  How a run of a crawl stands: it has returned a set of product URLs, it has raised, or
  its \<open>while\<close> loop is still running after the iterations it was given, with the
  queue and the page counter it has reached.
\<close>

datatype run =
    Returned "string set" crawler
  | Raised error crawler
  | Running "string list" int crawler

text \<open>\<open>while urls_to_visit and (max_pages is None or page <= max_pages)\<close>\<close>

definition loop_cond :: "int option \<Rightarrow> string list \<Rightarrow> int \<Rightarrow> bool" where
  "loop_cond max_pages urls_to_visit page =
     (urls_to_visit \<noteq> [] \<and> (case max_pages of None \<Rightarrow> True | Some m \<Rightarrow> page \<le> m))"

text \<open>One iteration of the loop, entered with a queue that is not empty.\<close>

definition loop_body ::
  "env \<Rightarrow> string \<Rightarrow> string list \<Rightarrow> int \<Rightarrow> crawler \<Rightarrow> (error + string list \<times> int) \<times> crawler"
where
  "loop_body e base_category urls_to_visit page c =
     (let current_url = hd urls_to_visit;
          urls1 = tl urls_to_visit;
          (r, c1) = crawl_page e current_url c
      in case r of
           Inl x \<Rightarrow> (Inl x, c1)
         | Inr new_urls \<Rightarrow>
             (let urls2 = urls1 @ filter (\<lambda>new_url. new_url \<notin> visited_urls c1) new_urls;
                  page1 = page + 1;
                  next_page_url = page_url e base_category page1
              in (Inr (if next_page_url \<notin> visited_urls c1 \<and> page1 > 1 \<and> product_urls c1 \<noteq> {}
                       then urls2 @ [next_page_url] else urls2,
                       page1),
                  c1)))"

text \<open>The loop, for at most \<open>n\<close> iterations.\<close>

fun crawl_loop ::
  "env \<Rightarrow> string \<Rightarrow> int option \<Rightarrow> nat \<Rightarrow> string list \<Rightarrow> int \<Rightarrow> crawler \<Rightarrow> run"
where
  "crawl_loop e base_category max_pages 0 urls_to_visit page c =
     (if loop_cond max_pages urls_to_visit page then Running urls_to_visit page c
      else Returned (product_urls c) c)"
| "crawl_loop e base_category max_pages (Suc n) urls_to_visit page c =
     (if loop_cond max_pages urls_to_visit page then
        (case loop_body e base_category urls_to_visit page c of
           (Inl x, c1) \<Rightarrow> Raised x c1
         | (Inr (urls', page'), c1) \<Rightarrow> crawl_loop e base_category max_pages n urls' page' c1)
      else Returned (product_urls c) c)"

definition crawl_category :: "env \<Rightarrow> nat \<Rightarrow> string \<Rightarrow> int option \<Rightarrow> crawler \<Rightarrow> run" where
  "crawl_category e n category_url max_pages c =
     (case extract_category_info (stdlib e) category_url of
        Inl x \<Rightarrow> Raised x c
      | Inr None \<Rightarrow> Returned {} c
      | Inr (Some (categories, _)) \<Rightarrow>
          (let base_category = join ''/'' categories
           in crawl_loop e base_category max_pages n [page_url e base_category 1] 1 c))"

subsection \<open>\<open>crawl_all_categories\<close>\<close>

text \<open>
  \<open>asyncio.gather\<close> over the tasks: with no task or one task the tasks run as written
  here. With two or three, the event loop interleaves them at their awaits; the
  function below then runs each task to its end before the next one starts, which is
  a simplification, and no theorem of this file runs it on more than one task.
\<close>

fun gather :: "env \<Rightarrow> nat \<Rightarrow> string list \<Rightarrow> crawler \<Rightarrow> run" where
  "gather e n [] c = Returned (product_urls c) c"
| "gather e n (cat_url # cat_urls) c =
     (case crawl_category e n cat_url None c of
        Returned _ c1 \<Rightarrow> gather e n cat_urls c1
      | Raised x c1 \<Rightarrow> Raised x c1
      | Running urls page c1 \<Rightarrow> Running urls page c1)"

text \<open>The list comprehension that keeps the category links of the home page.\<close>

fun category_urls_of :: "pylib \<Rightarrow> string list \<Rightarrow> error + string list" where
  "category_urls_of py [] = Inr []"
| "category_urls_of py (link # links) =
     (case classify_url py link of
        Inl x \<Rightarrow> Inl x
      | Inr t \<Rightarrow>
          (case category_urls_of py links of
             Inl x \<Rightarrow> Inl x
           | Inr rest \<Rightarrow> Inr (if t \<in> set [CATEGORY, SUBCATEGORY] then link # rest else rest)))"

definition crawl_all_categories :: "env \<Rightarrow> nat \<Rightarrow> crawler \<Rightarrow> run" where
  "crawl_all_categories e n c =
     (let home_url = BASE_URL (config e);
          (html, c1) = fetch_page e home_url c
      in case html of
           None \<Rightarrow> Returned {} c1
         | Some h \<Rightarrow>
             if h = [] then Returned {} c1
             else (case extract_links e h home_url of
                     Inl x \<Rightarrow> Raised x c1
                   | Inr category_links \<Rightarrow>
                       (case category_urls_of (stdlib e) category_links of
                          Inl x \<Rightarrow> Raised x c1
                        | Inr category_urls \<Rightarrow> gather e n (take 3 category_urls) c1)))"

subsection \<open>Reading outcomes and runs\<close>

text \<open>
  The causes after which \<open>fetch_page\<close> goes on to the next attempt: a status other
  than 200 and 404, a timeout, any other exception.
\<close>

definition retryable :: "outcome \<Rightarrow> bool" where
  "retryable r = (case r of Response status _ \<Rightarrow> status \<noteq> 200 \<and> status \<noteq> 404
                  | Timeout \<Rightarrow> True | TransportError \<Rightarrow> True)"

text \<open>The crawler as a run leaves it.\<close>

definition crawler_of :: "run \<Rightarrow> crawler" where
  "crawler_of r = (case r of Returned _ c \<Rightarrow> c | Raised _ c \<Rightarrow> c | Running _ _ c \<Rightarrow> c)"


section \<open>Concrete scenarios\<close>

text \<open>
  An instance of the library parameters for the concrete runs below: \<open>ip_address\<close>
  refusing every bracketed host and a normal form that changes nothing. Every URL of
  these runs is ASCII and has no bracket, so that neither is consulted there.
\<close>

definition refuse_all :: "string \<Rightarrow> bool" where
  "refuse_all h = False"

definition unchanged :: "string \<Rightarrow> string" where
  "unchanged s = s"

definition plain_lib :: pylib where
  "plain_lib = \<lparr>ipv6_address = refuse_all, nfkc = unchanged\<rparr>"

text \<open>
  A server that answers 404 for one URL, 500 and then 404 for a second, fails every
  request for a third, and for any other URL answers 503 to the first request of the
  session, times out on the second and answers 200 from the third on. No page has an
  anchor.
\<close>

definition flaky_server :: "nat \<Rightarrow> string \<Rightarrow> outcome" where
  "flaky_server n url =
     (if url = ''https://www.ouedkniss.com/gone'' then Response 404 ''not found''
      else if url = ''https://www.ouedkniss.com/late'' then
        (if n = 0 then Response 500 ''error'' else Response 404 ''not found'')
      else if url = ''https://www.ouedkniss.com/down'' then TransportError
      else if n = 0 then Response 503 ''busy''
      else if n = 1 then Timeout
      else Response 200 ''<html></html>'')"

definition no_anchors :: "string \<Rightarrow> string list" where
  "no_anchors html = []"

definition flaky_site :: env where
  "flaky_site = \<lparr>config = Config_scraper, server = flaky_server, anchors = no_anchors,
                  stdlib = plain_lib\<rparr>"



definition bare_server :: "nat \<Rightarrow> string \<Rightarrow> outcome" where
  "bare_server n url = Response 200 ''<html></html>''"

definition site_bare :: env where
  "site_bare = \<lparr>config = Config_scraper, server = bare_server, anchors = no_anchors,
                 stdlib = plain_lib\<rparr>"

text \<open>
  A site whose home page links to the category \<open>/informatique/1\<close>, whose page links
  back to the home page, as a logo does.
\<close>

definition looped_server :: "nat \<Rightarrow> string \<Rightarrow> outcome" where
  "looped_server n url =
     (if url = ''https://www.ouedkniss.com'' then Response 200 ''HOME''
      else if url = ''https://www.ouedkniss.com/informatique/1'' then Response 200 ''CATEGORY''
      else Response 404 [])"

definition looped_anchors :: "string \<Rightarrow> string list" where
  "looped_anchors html =
     (if html = ''HOME'' then [''/informatique/1'']
      else if html = ''CATEGORY'' then [''https://www.ouedkniss.com'']
      else [])"

definition site_looped :: env where
  "site_looped = \<lparr>config = Config_scraper, server = looped_server, anchors = looped_anchors,
                   stdlib = plain_lib\<rparr>"




text \<open>
  A site with two categories: the first page of \<open>telephones\<close> links to one product,
  the first page of \<open>vetements\<close> has no link; any other URL is answered 404.
\<close>

definition shop_server :: "nat \<Rightarrow> string \<Rightarrow> outcome" where
  "shop_server n url =
     (if url = ''https://www.ouedkniss.com/telephones/1'' then Response 200 ''TELEPHONES''
      else if url = ''https://www.ouedkniss.com/samsung-galaxy-d7'' then Response 200 ''PRODUCT''
      else if url = ''https://www.ouedkniss.com/vetements/1'' then Response 200 ''VETEMENTS''
      else Response 404 [])"

definition shop_anchors :: "string \<Rightarrow> string list" where
  "shop_anchors html = (if html = ''TELEPHONES'' then [''/samsung-galaxy-d7''] else [])"

definition site_shop :: env where
  "site_shop = \<lparr>config = Config_scraper, server = shop_server, anchors = shop_anchors,
                 stdlib = plain_lib\<rparr>"

section \<open>Properties of the URL classifier\<close>



lemma takeWhile_whole: "\<forall>x\<in>set xs. P x \<Longrightarrow> takeWhile P xs = xs"
  by (induction xs) auto

lemma dropWhile_whole: "\<forall>x\<in>set xs. P x \<Longrightarrow> dropWhile P xs = []"
  by (induction xs) auto























lemma set_after: "set (after c s) \<subseteq> set s"
  unfolding after_def by (meson set_drop_subset set_dropWhileD subsetI subset_trans subsetD)

lemma set_split_scheme: "set (snd (split_scheme d url)) \<subseteq> set url"
  using set_after by (simp add: split_scheme_def Let_def)

lemma set_splitnetloc: "set (fst (splitnetloc url)) \<subseteq> set url"
  unfolding splitnetloc_def by (auto dest!: set_takeWhileD in_set_dropD)

lemma set_url1: "set (remove_unsafe (lstrip_c0 url)) \<subseteq> set url"
  unfolding remove_unsafe_def lstrip_c0_def by (auto dest: set_dropWhileD)

lemma checknetloc_empty: "checknetloc py []"
  by (simp add: checknetloc_def)

lemma checknetloc_ascii: "is_ascii nl \<Longrightarrow> checknetloc py nl"
  by (simp add: checknetloc_def)

lemma is_ascii_subset: "is_ascii s \<Longrightarrow> set t \<subseteq> set s \<Longrightarrow> is_ascii t"
  by (auto simp: is_ascii_def list_all_iff)

lemma urlsplit_ascii_no_brackets:
  assumes "is_ascii url" "CHR ''['' \<notin> set url" "CHR '']'' \<notin> set url"
  shows "\<exists>r. urlsplit py url sch = Inr r"
proof -
  let ?url1 = "remove_unsafe (lstrip_c0 url)"
  let ?url2 = "snd (split_scheme (remove_unsafe (strip_c0 sch)) ?url1)"
  let ?nl = "fst (splitnetloc ?url2)"
  have sub: "set ?nl \<subseteq> set url"
    using set_splitnetloc set_split_scheme set_url1 by (meson subset_trans)
  with assms have b: "CHR ''['' \<notin> set ?nl" "CHR '']'' \<notin> set ?nl"
    by auto
  have c: "checknetloc py ?nl"
    using is_ascii_subset[OF assms(1) sub] by (rule checknetloc_ascii)
  show ?thesis
    using b c checknetloc_empty[of py]
    by (auto simp: urlsplit_def Let_def split: prod.splits)
qed

lemma urlparse_ascii_no_brackets:
  assumes "is_ascii url" "CHR ''['' \<notin> set url" "CHR '']'' \<notin> set url"
  shows "\<exists>p. urlparse py url sch = Inr p"
proof -
  obtain r where "urlsplit py url sch = Inr r" using urlsplit_ascii_no_brackets[OF assms] by blast
  then show ?thesis by (auto simp: urlparse_def Let_def split: prod.splits)
qed

text \<open>
  The netloc check does raise in the model: an authority that fails it, free of
  brackets, delimiters and removed characters, makes \<open>urlsplit\<close> raise.
\<close>

lemma urlsplit_checknetloc_raises:
  assumes "\<not> checknetloc py nl"
    and "\<forall>c\<in>set nl. c \<notin> set ''/?#[]'' \<and> c \<notin> {CHR 0x09, CHR 0x0D, CHR 0x0A}"
  shows "urlsplit py (''//'' @ nl) [] = Inl ValueError"
proof -
  have 1: "remove_unsafe (lstrip_c0 (''//'' @ nl)) = ''//'' @ nl"
    using assms(2) by (simp add: lstrip_c0_def is_c0_or_space_def remove_unsafe_def filter_id_conv)
  have 0: "remove_unsafe (strip_c0 []) = []"
    by (simp add: strip_c0_def remove_unsafe_def)
  have 2: "split_scheme [] (''//'' @ nl) = ([], ''//'' @ nl)"
    by (simp add: split_scheme_def Let_def is_ascii_alpha_def is_lower_def is_upper_def)
  have d: "\<forall>c\<in>set nl. \<not> is_netloc_delim c"
    using assms(2) by (auto simp: is_netloc_delim_def)
  have 3: "splitnetloc (''//'' @ nl) = (nl, [])"
    using takeWhile_whole[OF d] dropWhile_whole[OF d] by (simp add: splitnetloc_def)
  have b: "CHR ''['' \<notin> set nl" "CHR '']'' \<notin> set nl"
    using assms(2) by auto
  show ?thesis
    unfolding urlsplit_def 1 0 2 Let_def prod.case
    using 3 b assms(1) by simp
qed

lemma classify_url_error_iff:
  "classify_url py url = Inl x \<longleftrightarrow> urlparse py url [] = Inl x"
  by (auto simp: classify_url_def is_valid_domain_def split: sum.splits option.splits)

text \<open>
  Claim C8, as amended. \<open>classify_url\<close> catches nothing, so it raises exactly when
  \<open>urlparse\<close> raises ValueError: for an authority with one bracket and not the other,
  with a bracketed host that is no IPv6 or IPvFuture address, or with a character outside
  ASCII whose normal form brings in one of \<open>/?#@:\<close>. On every ASCII input without
  \<open>[\<close> and \<open>]\<close> it returns a URL type.
\<close>

theorem classify_url_raises_with_urlparse:
  "(classify_url py url = Inl ValueError \<longleftrightarrow> urlparse py url [] = Inl ValueError) \<and>
   (is_ascii url \<and> CHR ''['' \<notin> set url \<and> CHR '']'' \<notin> set url \<longrightarrow>
      (\<exists>t. classify_url py url = Inr t))"
proof -
  have "\<exists>t. classify_url py url = Inr t"
    if a: "is_ascii url" and b: "CHR ''['' \<notin> set url" and c: "CHR '']'' \<notin> set url"
  proof -
    obtain p where "urlparse py url [] = Inr p" using urlparse_ascii_no_brackets[OF a b c] by blast
    then have "classify_url py url \<noteq> Inl ValueError" by (simp add: classify_url_error_iff)
    then show ?thesis by (cases "classify_url py url") (auto intro: error.exhaust)
  qed
  then show ?thesis using classify_url_error_iff by blast
qed

theorem classify_url_raises_with_urlparse_witness:
  "is_ascii ''ht!tp:/not a url'' \<and>
   CHR ''['' \<notin> set ''ht!tp:/not a url'' \<and> CHR '']'' \<notin> set ''ht!tp:/not a url'' \<and>
   classify_url plain_lib ''ht!tp:/not a url'' = Inr INVALID"
proof -
  have v: "classify_url plain_lib ''ht!tp:/not a url'' = Inr INVALID" by code_simp
  have a: "is_ascii ''ht!tp:/not a url''" by (simp add: is_ascii_def)
  show ?thesis
    using classify_url_raises_with_urlparse[of plain_lib "''ht!tp:/not a url''"] v a by simp
qed

text \<open>The claim as stated, for every input string, fails at \<open>http://[\<close>.\<close>

theorem classify_url_raises_counterexample:
  "classify_url plain_lib ''http://['' = Inl ValueError"
  by code_simp

text \<open>
  Claim C1, as amended. \<open>category_pattern\<close> wants two path segments, so the URL of
  the claim, whose page number follows a dash, has no category information and is
  Invalid. It is the URL with the page number as a second segment,
  \<open>https://www.ouedkniss.com/informatique/3\<close>, for which \<open>extract_category_info\<close>
  returns \<open>(["informatique"], 3)\<close> and \<open>classify_url\<close> returns Category.
\<close>

theorem category_scenario:
  "extract_category_info py ''https://www.ouedkniss.com/informatique/3'' =
     Inr (Some ([''informatique''], 3)) \<and>
   classify_url py ''https://www.ouedkniss.com/informatique/3'' = Inr CATEGORY \<and>
   extract_category_info py ''https://www.ouedkniss.com/informatique-3'' = Inr None \<and>
   classify_url py ''https://www.ouedkniss.com/informatique-3'' = Inr INVALID"
  by code_simp

text \<open>The claim as stated fails: at its URL both functions answer otherwise.\<close>

theorem category_scenario_counterexample:
  "extract_category_info plain_lib ''https://www.ouedkniss.com/informatique-3'' \<noteq>
     Inr (Some ([''informatique''], 3)) \<and>
   classify_url plain_lib ''https://www.ouedkniss.com/informatique-3'' \<noteq> Inr CATEGORY"
  by code_simp

section \<open>Properties of \<open>normalize_url\<close>\<close>

lemma urlparse_base_url:
  "urlparse py base_url [] =
     Inr \<lparr>scheme = ''https'', netloc = ''www.ouedkniss.com'', path = [], params = [],
          query = [], fragment = []\<rparr>"
  by code_simp

lemma remove_unsafe_slash: "remove_unsafe (CHR ''/'' # r) = CHR ''/'' # remove_unsafe r"
  by (simp add: remove_unsafe_def)

lemma lstrip_c0_slash: "lstrip_c0 (CHR ''/'' # r) = CHR ''/'' # r"
  by (simp add: lstrip_c0_def is_c0_or_space_def)

lemma strip_c0_https: "remove_unsafe (strip_c0 ''https'') = ''https''"
  by code_simp

lemma before_slash: "c \<noteq> CHR ''/'' \<Longrightarrow> before c (CHR ''/'' # r) = CHR ''/'' # before c r"
  by (simp add: before_def)

lemma urlsplit_abs_path:
  assumes "take 2 (remove_unsafe (CHR ''/'' # r)) \<noteq> ''//''"
  shows "\<exists>u q f. urlsplit py (CHR ''/'' # r) ''https'' = Inr (''https'', [], CHR ''/'' # u, q, f)"
proof -
  have s: "split_scheme ''https'' (CHR ''/'' # remove_unsafe r) = (''https'', CHR ''/'' # remove_unsafe r)"
    by (simp add: split_scheme_def Let_def is_ascii_alpha_def is_lower_def is_upper_def)
  show ?thesis
    using assms
    by (simp add: urlsplit_def lstrip_c0_slash remove_unsafe_slash strip_c0_https s before_slash
        checknetloc_empty del: take_Suc_Cons)
qed

lemma drop_rfind:
  assumes "CHR ''/'' \<in> set url"
  shows "\<exists>b. drop (length url - Suc (length (takeWhile (\<lambda>c. c \<noteq> CHR ''/'') (rev url)))) url = CHR ''/'' # b"
proof -
  obtain a b where ab: "url = a @ CHR ''/'' # b" "CHR ''/'' \<notin> set b"
    using split_list_last[OF assms] by blast
  have "takeWhile (\<lambda>c. c \<noteq> CHR ''/'') (rev b @ CHR ''/'' # rev a) = rev b"
    using ab(2) by (induction b rule: rev_induct) auto
  then have "length (takeWhile (\<lambda>c. c \<noteq> CHR ''/'') (rev url)) = length b"
    using ab(1) by simp
  then have "drop (length url - Suc (length (takeWhile (\<lambda>c. c \<noteq> CHR ''/'') (rev url)))) url = CHR ''/'' # b"
    using ab(1) by simp
  then show ?thesis by blast
qed

lemma splitparams_abs_path: "\<exists>pth ps. splitparams (CHR ''/'' # u) = (CHR ''/'' # pth, ps)"
proof -
  let ?url = "CHR ''/'' # u"
  let ?r = "length ?url - Suc (length (takeWhile (\<lambda>c. c \<noteq> CHR ''/'') (rev ?url)))"
  obtain b where b: "drop ?r ?url = CHR ''/'' # b"
    using drop_rfind[of ?url] by auto
  show ?thesis
  proof (cases "CHR '';'' \<in> set (drop ?r ?url)")
    case False
    then show ?thesis by (simp add: splitparams_def Let_def)
  next
    case True
    have "before CHR '';'' (drop ?r ?url) = CHR ''/'' # before CHR '';'' b"
      using b by (simp add: before_def)
    then obtain k where k: "?r + length (before CHR '';'' (drop ?r ?url)) = Suc k"
      by simp
    have "splitparams ?url = (take (Suc k) ?url, drop (Suc (Suc k)) ?url)"
      using True k unfolding splitparams_def Let_def by (simp del: take_Suc_Cons drop_Suc_Cons)
    then show ?thesis by simp
  qed
qed

lemma urlparse_abs_path:
  assumes "take 2 (remove_unsafe (CHR ''/'' # r)) \<noteq> ''//''"
  shows "\<exists>pth ps q f. urlparse py (CHR ''/'' # r) ''https'' =
           Inr \<lparr>scheme = ''https'', netloc = [], path = CHR ''/'' # pth, params = ps,
                query = q, fragment = f\<rparr>"
proof -
  obtain u q f where u: "urlsplit py (CHR ''/'' # r) ''https'' = Inr (''https'', [], CHR ''/'' # u, q, f)"
    using urlsplit_abs_path[OF assms] by blast
  obtain pth ps where p: "splitparams (CHR ''/'' # u) = (CHR ''/'' # pth, ps)"
    using splitparams_abs_path by blast
  show ?thesis using u p by (simp add: urlparse_def)
qed

lemma join_resolved_nonempty: "join_resolved segs \<noteq> []"
  by (simp add: join_resolved_def Let_def)

lemma urljoin_abs_path:
  assumes "urlparse py url ''https'' = Inr u"
    and "scheme u = ''https''" and "netloc u = []" and "take 1 (path u) = ''/''"
    and "P = join_resolved (split_on CHR ''/'' (path u))"
  shows "urljoin py base_url url =
           Inr (base_url @ (if take 1 P = ''/'' then P else ''/'' @ P) @
                (if params u = [] then [] else '';'' @ params u) @
                (if query u = [] then [] else ''?'' @ query u) @
                (if fragment u = [] then [] else ''#'' @ fragment u))"
proof -
  have b: "base_url \<noteq> []" by (simp add: base_url_def)
  have n: "url \<noteq> []"
  proof
    assume e: "url = []"
    have "urlparse py [] ''https'' =
        Inr \<lparr>scheme = ''https'', netloc = [], path = [], params = [], query = [], fragment = []\<rparr>"
      by code_simp
    with e assms(1,4) show False by auto
  qed
  have pn: "path u \<noteq> []" using assms(4) by auto
  have P: "P \<noteq> []" using assms(5) by (simp add: join_resolved_nonempty)
  have j: "urljoin py base_url url =
      Inr (urlunsplit ''https'' ''www.ouedkniss.com''
             (if params u = [] then P else P @ '';'' @ params u) (query u) (fragment u))"
    unfolding urljoin_def
    using assms(2-5) pn
    by (simp add: b n urlparse_base_url assms(1) uses_relative_def uses_netloc_def urlunparse_def)
  obtain c P' where "P = c # P'" using P by (cases P) auto
  then show ?thesis
    unfolding j urlunsplit_def
    by (simp add: base_url_def Let_def)
qed

lemma rooted_text: "P \<noteq> [] \<Longrightarrow> \<exists>rest. (if take 1 P = ''/'' then P else ''/'' @ P) @ t = CHR ''/'' # rest"
  by (cases P) auto

lemma urlparse_site_url:
  "\<exists>p. urlparse py (base_url @ CHR ''/'' # rest) [] = Inr p \<and>
       scheme p = ''https'' \<and> netloc p = ''www.ouedkniss.com''"
proof -
  let ?t = "CHR ''/'' # remove_unsafe rest"
  have 1: "remove_unsafe (lstrip_c0 (base_url @ CHR ''/'' # rest)) = base_url @ ?t"
    by (simp add: base_url_def lstrip_c0_def is_c0_or_space_def remove_unsafe_def)
  have 0: "remove_unsafe (strip_c0 []) = []"
    by (simp add: strip_c0_def remove_unsafe_def)
  have 2: "split_scheme [] (base_url @ ?t) = (''https'', ''//www.ouedkniss.com'' @ ?t)"
    by (simp add: split_scheme_def base_url_def before_def after_def Let_def is_ascii_alpha_def
        is_lower_def is_scheme_char_def lower_char_def is_upper_def)
  have 3: "splitnetloc (''//www.ouedkniss.com'' @ ?t) = (''www.ouedkniss.com'', ?t)"
    by (simp add: splitnetloc_def is_netloc_delim_def)
  have 4: "checknetloc py ''www.ouedkniss.com''"
    by (rule checknetloc_ascii) (simp add: is_ascii_def)
  have "\<exists>u q f. urlsplit py (base_url @ CHR ''/'' # rest) [] = Inr (''https'', ''www.ouedkniss.com'', u, q, f)"
    unfolding urlsplit_def 1 0 2 Let_def prod.case
    using 3 4 by simp
  then obtain u q f where
    "urlsplit py (base_url @ CHR ''/'' # rest) [] = Inr (''https'', ''www.ouedkniss.com'', u, q, f)"
    by blast
  then show ?thesis by (simp add: urlparse_def Let_def split: prod.splits)
qed

text \<open>A path without dot segments is its own resolution.\<close>

lemma resolve_segments_plain:
  "''.'' \<notin> set segs \<Longrightarrow> ''..'' \<notin> set segs \<Longrightarrow> resolve_segments acc segs = acc @ segs"
  by (induction segs arbitrary: acc) auto

lemma split_on_not_empty: "split_on c s \<noteq> []"
  by (induction s) (auto split: list.splits)

lemma join_split_on: "join [c] (split_on c s) = s"
proof (induction s)
  case Nil
  then show ?case by simp
next
  case (Cons x s)
  obtain q qs where q: "split_on c s = q # qs"
    using split_on_not_empty[of c s] by (cases "split_on c s") auto
  show ?case
  proof (cases "x = c")
    case True
    with Cons q show ?thesis by simp
  next
    case False
    with Cons q show ?thesis by (cases qs) auto
  qed
qed

lemma join_resolved_plain:
  assumes "s \<noteq> []" "''.'' \<notin> set (split_on CHR ''/'' s)" "''..'' \<notin> set (split_on CHR ''/'' s)"
  shows "join_resolved (split_on CHR ''/'' s) = s"
proof -
  have l: "last (split_on CHR ''/'' s) \<in> set (split_on CHR ''/'' s)"
    using split_on_not_empty by (rule last_in_set)
  have "last (split_on CHR ''/'' s) \<noteq> ''.''" "last (split_on CHR ''/'' s) \<noteq> ''..''"
    using l assms(2,3) by auto
  then show ?thesis
    using assms join_split_on[of "CHR ''/''" s]
    by (simp add: join_resolved_def Let_def resolve_segments_plain)
qed

lemma urlparse_plain_path:
  assumes "take 1 url = ''/''" "take 2 url \<noteq> ''//''" "remove_unsafe url = url"
    and "CHR ''?'' \<notin> set url" "CHR ''#'' \<notin> set url" "CHR '';'' \<notin> set url"
  shows "urlparse py url ''https'' =
           Inr \<lparr>scheme = ''https'', netloc = [], path = url, params = [], query = [], fragment = []\<rparr>"
proof -
  obtain r where r: "url = CHR ''/'' # r" using assms(1) by (cases url) auto
  have 1: "remove_unsafe (lstrip_c0 url) = url"
    using assms(3) r by (simp add: lstrip_c0_slash)
  have s: "split_scheme ''https'' url = (''https'', url)"
    using r by (simp add: split_scheme_def Let_def is_ascii_alpha_def is_lower_def is_upper_def)
  have "urlsplit py url ''https'' = Inr (''https'', [], url, [], [])"
    unfolding urlsplit_def 1 strip_c0_https s Let_def prod.case
    using assms(2,4,5) by (simp add: checknetloc_empty)
  then show ?thesis using assms(6) by (simp add: urlparse_def)
qed

text \<open>
  Claim C9, as amended. A reference that begins with one slash, and not with two once
  tab, carriage return and line feed are dropped (as \<open>urlsplit\<close> drops them), is resolved
  against the site base. With \<open>u\<close> the parse of the reference under the scheme of the
  base, the result is the base followed by the path of \<open>u\<close> with its dot segments
  resolved, and by the parameters, the query and the fragment of \<open>u\<close>; this text is
  an absolute URL, with the scheme \<open>https\<close> and the host \<open>www.ouedkniss.com\<close>. For
  a reference that is a path without dot segments, parameters, query or fragment, the
  result is the base followed by the reference.
\<close>

theorem normalize_url_absolute_path:
  "(take 1 url = ''/'' \<and> take 2 (remove_unsafe url) \<noteq> ''//'' \<longrightarrow>
      (\<exists>u P r. urlparse py url ''https'' = Inr u \<and>
               scheme u = ''https'' \<and> netloc u = [] \<and> take 1 (path u) = ''/'' \<and>
               P = join_resolved (split_on CHR ''/'' (path u)) \<and>
               r = base_url @ (if take 1 P = ''/'' then P else ''/'' @ P) @
                   (if params u = [] then [] else '';'' @ params u) @
                   (if query u = [] then [] else ''?'' @ query u) @
                   (if fragment u = [] then [] else ''#'' @ fragment u) \<and>
               normalize_url py url = Inr r \<and>
               (\<exists>p. urlparse py r [] = Inr p \<and> scheme p = ''https'' \<and>
                    netloc p = ''www.ouedkniss.com''))) \<and>
   (take 1 url = ''/'' \<and> take 2 url \<noteq> ''//'' \<and> remove_unsafe url = url \<and>
    CHR ''?'' \<notin> set url \<and> CHR ''#'' \<notin> set url \<and> CHR '';'' \<notin> set url \<and>
    ''.'' \<notin> set (split_on CHR ''/'' url) \<and> ''..'' \<notin> set (split_on CHR ''/'' url) \<longrightarrow>
      normalize_url py url = Inr (base_url @ url))"
proof -
  have general: "\<exists>u P r. urlparse py url ''https'' = Inr u \<and>
               scheme u = ''https'' \<and> netloc u = [] \<and> take 1 (path u) = ''/'' \<and>
               P = join_resolved (split_on CHR ''/'' (path u)) \<and>
               r = base_url @ (if take 1 P = ''/'' then P else ''/'' @ P) @
                   (if params u = [] then [] else '';'' @ params u) @
                   (if query u = [] then [] else ''?'' @ query u) @
                   (if fragment u = [] then [] else ''#'' @ fragment u) \<and>
               normalize_url py url = Inr r \<and>
               (\<exists>p. urlparse py r [] = Inr p \<and> scheme p = ''https'' \<and>
                    netloc p = ''www.ouedkniss.com'')"
    if a: "take 1 url = ''/''" and b: "take 2 (remove_unsafe url) \<noteq> ''//''"
  proof -
    from a obtain t where t: "url = CHR ''/'' # t" by (cases url) auto
    obtain pth ps q f where u: "urlparse py url ''https'' =
           Inr \<lparr>scheme = ''https'', netloc = [], path = CHR ''/'' # pth, params = ps,
                query = q, fragment = f\<rparr>"
      using urlparse_abs_path[of t py] b t by blast
    define u0 where "u0 = \<lparr>scheme = ''https'', netloc = [], path = CHR ''/'' # pth, params = ps,
                query = q, fragment = f\<rparr>"
    define P where "P = join_resolved (split_on CHR ''/'' (path u0))"
    define tail where "tail = (if params u0 = [] then [] else '';'' @ params u0) @
                   (if query u0 = [] then [] else ''?'' @ query u0) @
                   (if fragment u0 = [] then [] else ''#'' @ fragment u0)"
    define r where "r = base_url @ (if take 1 P = ''/'' then P else ''/'' @ P) @ tail"
    have u': "urlparse py url ''https'' = Inr u0" using u by (simp add: u0_def)
    have c: "scheme u0 = ''https''" "netloc u0 = []" "take 1 (path u0) = ''/''"
      by (simp_all add: u0_def)
    have j: "urljoin py base_url url = Inr r"
      using urljoin_abs_path[OF u' c P_def] by (simp add: r_def tail_def)
    have n: "normalize_url py url = Inr r"
      using a j by (simp add: normalize_url_def)
    have "P \<noteq> []" by (simp add: P_def join_resolved_nonempty)
    then obtain rest where "(if take 1 P = ''/'' then P else ''/'' @ P) @ tail = CHR ''/'' # rest"
      using rooted_text[of P tail] by blast
    then have "r = base_url @ CHR ''/'' # rest" by (simp add: r_def)
    then have s: "\<exists>p. urlparse py r [] = Inr p \<and> scheme p = ''https'' \<and>
                    netloc p = ''www.ouedkniss.com''"
      using urlparse_site_url[of py rest] by simp
    show ?thesis
      using u' c n s by (intro exI[of _ u0] exI[of _ P] exI[of _ r]) (simp add: P_def r_def tail_def)
  qed
  have plain: "normalize_url py url = Inr (base_url @ url)"
    if a: "take 1 url = ''/''" and b: "take 2 url \<noteq> ''//''" and c: "remove_unsafe url = url"
      and d: "CHR ''?'' \<notin> set url" "CHR ''#'' \<notin> set url" "CHR '';'' \<notin> set url"
      and e: "''.'' \<notin> set (split_on CHR ''/'' url)" "''..'' \<notin> set (split_on CHR ''/'' url)"
  proof -
    let ?u = "\<lparr>scheme = ''https'', netloc = [], path = url, params = [], query = [], fragment = []\<rparr>"
    have u: "urlparse py url ''https'' = Inr ?u"
      using urlparse_plain_path[OF a b c d] .
    have n: "url \<noteq> []" using a by auto
    have P: "url = join_resolved (split_on CHR ''/'' (path ?u))"
      using join_resolved_plain[OF n e] by simp
    have "urljoin py base_url url =
           Inr (base_url @ (if take 1 url = ''/'' then url else ''/'' @ url) @
                (if params ?u = [] then [] else '';'' @ params ?u) @
                (if query ?u = [] then [] else ''?'' @ query ?u) @
                (if fragment ?u = [] then [] else ''#'' @ fragment ?u))"
      by (rule urljoin_abs_path[OF u _ _ _ P]) (use a in simp_all)
    then show ?thesis using a by (simp add: normalize_url_def)
  qed
  from general plain show ?thesis by blast
qed

theorem normalize_url_absolute_path_witness:
  "normalize_url plain_lib ''/a/./b/../informatique/1;tri?page=2#haut'' =
     Inr ''https://www.ouedkniss.com/a/informatique/1;tri?page=2#haut'' \<and>
   (\<exists>p. urlparse plain_lib ''https://www.ouedkniss.com/a/informatique/1;tri?page=2#haut'' [] = Inr p \<and>
        scheme p = ''https'' \<and> netloc p = ''www.ouedkniss.com'') \<and>
   normalize_url plain_lib ''/informatique/1'' = Inr ''https://www.ouedkniss.com/informatique/1''"
proof -
  let ?url = "''/a/./b/../informatique/1;tri?page=2#haut''"
  have h: "take 1 ?url = ''/'' \<and> take 2 (remove_unsafe ?url) \<noteq> ''//''"
    by (simp add: remove_unsafe_def)
  obtain u P r where g: "urlparse plain_lib ?url ''https'' = Inr u"
      "P = join_resolved (split_on CHR ''/'' (path u))"
      "r = base_url @ (if take 1 P = ''/'' then P else ''/'' @ P) @
                   (if params u = [] then [] else '';'' @ params u) @
                   (if query u = [] then [] else ''?'' @ query u) @
                   (if fragment u = [] then [] else ''#'' @ fragment u)"
      "normalize_url plain_lib ?url = Inr r"
      "\<exists>p. urlparse plain_lib r [] = Inr p \<and> scheme p = ''https'' \<and> netloc p = ''www.ouedkniss.com''"
    using normalize_url_absolute_path[of ?url plain_lib] h by blast
  have v: "urlparse plain_lib ?url ''https'' =
      Inr \<lparr>scheme = ''https'', netloc = [], path = ''/a/./b/../informatique/1'', params = ''tri'',
           query = ''page=2'', fragment = ''haut''\<rparr>"
    by code_simp
  have j: "join_resolved [[], ''a'', ''.'', ''b'', ''..'', ''informatique'', ''1''] = ''/a/informatique/1''"
    by code_simp
  from g(1) v have u: "u = \<lparr>scheme = ''https'', netloc = [], path = ''/a/./b/../informatique/1'',
      params = ''tri'', query = ''page=2'', fragment = ''haut''\<rparr>"
    by simp
  have r: "r = ''https://www.ouedkniss.com/a/informatique/1;tri?page=2#haut''"
    using g(2,3) by (simp add: u j base_url_def)
  have a: "normalize_url plain_lib ?url = Inr ''https://www.ouedkniss.com/a/informatique/1;tri?page=2#haut''"
    using g(4) r by simp
  have b: "\<exists>p. urlparse plain_lib ''https://www.ouedkniss.com/a/informatique/1;tri?page=2#haut'' [] = Inr p \<and>
        scheme p = ''https'' \<and> netloc p = ''www.ouedkniss.com''"
    using g(5) r by simp
  have s: "split_on CHR ''/'' ''/informatique/1'' = [[], ''informatique'', ''1'']"
    by code_simp
  have c: "normalize_url plain_lib ''/informatique/1'' = Inr ''https://www.ouedkniss.com/informatique/1''"
    using normalize_url_absolute_path[of "''/informatique/1''" plain_lib]
    by (simp add: remove_unsafe_def s base_url_def)
  from a b c show ?thesis by blast
qed

text \<open>
  The claim as stated, for every relative reference, fails at a network-path reference:
  it is resolved to an absolute URL of the host it names, which is not the site.
\<close>

theorem normalize_url_network_path_counterexample:
  "normalize_url plain_lib ''//example.com/annonce'' = Inr ''https://example.com/annonce'' \<and>
   is_valid_domain plain_lib ''https://example.com/annonce'' = Inr False"
  by code_simp

text \<open>
  A reference that does not begin with a slash is not resolved at all: the function
  returns it as it is, whereas its docstring reads "Normalize URL to absolute format".
\<close>

lemma normalize_url_passes_relative_path:
  "normalize_url plain_lib ''informatique/1'' = Inr ''informatique/1''"
  by code_simp

section \<open>Properties of the crawler\<close>

text \<open>
  Claim C10. For a URL already in the visited set, \<open>crawl_page\<close> returns the empty
  list and leaves the crawler as it is: both sets unchanged, no call of \<open>fetch_page\<close>,
  no request and no sleep added to the traces.
\<close>

theorem crawl_page_visited:
  assumes "url \<in> visited_urls c"
  shows "crawl_page e url c = (Inr [], c)"
  using assms by (simp add: crawl_page_def)

theorem crawl_page_visited_witness:
  "''https://www.ouedkniss.com/informatique/1'' \<in>
     visited_urls (new_crawler\<lparr>visited_urls := {''https://www.ouedkniss.com/informatique/1''}\<rparr>) \<and>
   crawl_page site_bare ''https://www.ouedkniss.com/informatique/1''
     (new_crawler\<lparr>visited_urls := {''https://www.ouedkniss.com/informatique/1''}\<rparr>) =
   (Inr [], new_crawler\<lparr>visited_urls := {''https://www.ouedkniss.com/informatique/1''}\<rparr>)"
  using crawl_page_visited[of "''https://www.ouedkniss.com/informatique/1''"
      "new_crawler\<lparr>visited_urls := {''https://www.ouedkniss.com/informatique/1''}\<rparr>" site_bare]
  by simp

lemma backoff_requests: "requests (backoff e a c) = requests c"
  by (simp add: backoff_def)

lemma fetch_attempts_requests:
  "length (requests (snd (fetch_attempts e url as c))) \<le> length (requests c) + length as"
proof (induction as arbitrary: c)
  case Nil
  then show ?case by simp
next
  case (Cons a as)
  let ?c2 = "c\<lparr>sleeps := sleeps c @ [RateLimitDelay], requests := requests c @ [url]\<rparr>"
  have "length (requests (snd (fetch_attempts e url as (backoff e a ?c2)))) \<le>
        length (requests c) + Suc (length as)"
    using Cons.IH[of "backoff e a ?c2"] by (simp add: backoff_requests)
  then show ?case
    by (simp add: Let_def split: outcome.splits)
qed

text \<open>
  Claim C5. With \<open>MAX_RETRIES = 3\<close>, the configured default, \<open>fetch_page\<close> makes at
  most three requests for its URL. A 404 answer returns None at once, with no further
  attempt and no backoff after it, be it the answer to the first request or to the
  second. Two retryable outcomes followed by a 200 return the text, with backoffs of
  \<open>2^0\<close> and \<open>2^1\<close> seconds between the attempts. After a third retryable outcome
  no attempt remains: no backoff follows it and None is returned.
\<close>

theorem fetch_page_retry_policy:
  assumes "MAX_RETRIES (config e) = 3"
  shows "length (requests (snd (fetch_page e url c))) \<le> length (requests c) + 3 \<and>
    (\<forall>text. server e (length (requests c)) url = Response 404 text \<longrightarrow>
       fetch_page e url c =
         (None, c\<lparr>fetched := fetched c @ [url], requests := requests c @ [url],
                  sleeps := sleeps c @ [RateLimitDelay]\<rparr>)) \<and>
    (\<forall>text. retryable (server e (length (requests c)) url) \<and>
            server e (length (requests c) + 1) url = Response 404 text \<longrightarrow>
       fetch_page e url c =
         (None, c\<lparr>fetched := fetched c @ [url], requests := requests c @ [url, url],
                  sleeps := sleeps c @ [RateLimitDelay, Backoff 1, RateLimitDelay]\<rparr>)) \<and>
    (\<forall>text. retryable (server e (length (requests c)) url) \<and>
            retryable (server e (length (requests c) + 1) url) \<and>
            server e (length (requests c) + 2) url = Response 200 text \<longrightarrow>
       fetch_page e url c =
         (Some text, c\<lparr>fetched := fetched c @ [url], requests := requests c @ [url, url, url],
                       sleeps := sleeps c @ [RateLimitDelay, Backoff 1, RateLimitDelay, Backoff 2,
                                             RateLimitDelay]\<rparr>)) \<and>
    (retryable (server e (length (requests c)) url) \<and>
     retryable (server e (length (requests c) + 1) url) \<and>
     retryable (server e (length (requests c) + 2) url) \<longrightarrow>
       fetch_page e url c =
         (None, c\<lparr>fetched := fetched c @ [url], requests := requests c @ [url, url, url],
                  sleeps := sleeps c @ [RateLimitDelay, Backoff 1, RateLimitDelay, Backoff 2,
                                        RateLimitDelay]\<rparr>))"
proof -
  have r: "[0..<nat (MAX_RETRIES (config e))] = [0, 1, 2]"
    using assms by (simp add: upt_rec)
  have r3: "[0..<3] = [0, 1, 2::nat]"
    by (simp add: upt_rec)
  have a: "length (requests (snd (fetch_page e url c))) \<le> length (requests c) + 3"
    using fetch_attempts_requests[of e url "[0, 1, 2]" "c\<lparr>fetched := fetched c @ [url]\<rparr>"]
    by (simp add: fetch_page_def r)
  have b: "fetch_page e url c =
         (None, c\<lparr>fetched := fetched c @ [url], requests := requests c @ [url],
                  sleeps := sleeps c @ [RateLimitDelay]\<rparr>)"
    if "server e (length (requests c)) url = Response 404 body" for body
    using that by (simp add: fetch_page_def r)
  have b2: "fetch_page e url c =
         (None, c\<lparr>fetched := fetched c @ [url], requests := requests c @ [url, url],
                  sleeps := sleeps c @ [RateLimitDelay, Backoff 1, RateLimitDelay]\<rparr>)"
    if "retryable (server e (length (requests c)) url)"
       "server e (length (requests c) + 1) url = Response 404 body" for body
    using that assms
    by (auto simp: fetch_page_def r3 retryable_def backoff_def split: outcome.splits)
  have c: "fetch_page e url c =
         (Some body, c\<lparr>fetched := fetched c @ [url], requests := requests c @ [url, url, url],
                       sleeps := sleeps c @ [RateLimitDelay, Backoff 1, RateLimitDelay, Backoff 2,
                                             RateLimitDelay]\<rparr>)"
    if "retryable (server e (length (requests c)) url)"
       "retryable (server e (length (requests c) + 1) url)"
       "server e (length (requests c) + 2) url = Response 200 body" for body
    using that assms
    by (auto simp: fetch_page_def r3 retryable_def backoff_def split: outcome.splits)
  have d: "fetch_page e url c =
         (None, c\<lparr>fetched := fetched c @ [url], requests := requests c @ [url, url, url],
                  sleeps := sleeps c @ [RateLimitDelay, Backoff 1, RateLimitDelay, Backoff 2,
                                        RateLimitDelay]\<rparr>)"
    if "retryable (server e (length (requests c)) url)"
       "retryable (server e (length (requests c) + 1) url)"
       "retryable (server e (length (requests c) + 2) url)"
    using that assms
    by (auto simp: fetch_page_def r3 retryable_def backoff_def split: outcome.splits)
  from a b b2 c d show ?thesis by blast
qed

theorem fetch_page_retry_policy_witness:
  "fetch_page flaky_site ''https://www.ouedkniss.com/gone'' new_crawler =
     (None, new_crawler\<lparr>fetched := [''https://www.ouedkniss.com/gone''],
                          requests := [''https://www.ouedkniss.com/gone''],
                          sleeps := [RateLimitDelay]\<rparr>) \<and>
   fetch_page flaky_site ''https://www.ouedkniss.com/late'' new_crawler =
     (None, new_crawler\<lparr>fetched := [''https://www.ouedkniss.com/late''],
                          requests := [''https://www.ouedkniss.com/late'', ''https://www.ouedkniss.com/late''],
                          sleeps := [RateLimitDelay, Backoff 1, RateLimitDelay]\<rparr>) \<and>
   fetch_page flaky_site ''https://www.ouedkniss.com/auto/1'' new_crawler =
     (Some ''<html></html>'',
      new_crawler\<lparr>fetched := [''https://www.ouedkniss.com/auto/1''],
                   requests := [''https://www.ouedkniss.com/auto/1'', ''https://www.ouedkniss.com/auto/1'',
                                ''https://www.ouedkniss.com/auto/1''],
                   sleeps := [RateLimitDelay, Backoff 1, RateLimitDelay, Backoff 2, RateLimitDelay]\<rparr>) \<and>
   fetch_page flaky_site ''https://www.ouedkniss.com/down'' new_crawler =
     (None,
      new_crawler\<lparr>fetched := [''https://www.ouedkniss.com/down''],
                   requests := [''https://www.ouedkniss.com/down'', ''https://www.ouedkniss.com/down'',
                                ''https://www.ouedkniss.com/down''],
                   sleeps := [RateLimitDelay, Backoff 1, RateLimitDelay, Backoff 2, RateLimitDelay]\<rparr>)"
proof -
  have m: "MAX_RETRIES (config flaky_site) = 3"
    by (simp add: flaky_site_def Config_scraper_def)
  have s: "server flaky_site = flaky_server"
    by (simp add: flaky_site_def)
  have n: "requests new_crawler = []" "fetched new_crawler = []" "sleeps new_crawler = []"
    by (simp_all add: new_crawler_def)
  show ?thesis
    using fetch_page_retry_policy[OF m, of "''https://www.ouedkniss.com/gone''" new_crawler]
      fetch_page_retry_policy[OF m, of "''https://www.ouedkniss.com/late''" new_crawler]
      fetch_page_retry_policy[OF m, of "''https://www.ouedkniss.com/auto/1''" new_crawler]
      fetch_page_retry_policy[OF m, of "''https://www.ouedkniss.com/down''" new_crawler]
    by (simp add: s n flaky_server_def retryable_def)
qed

lemma fetch_attempts_frame:
  "visited_urls (snd (fetch_attempts e url as c)) = visited_urls c \<and>
   product_urls (snd (fetch_attempts e url as c)) = product_urls c \<and>
   fetched (snd (fetch_attempts e url as c)) = fetched c"
proof (induction as arbitrary: c)
  case Nil
  then show ?case by simp
next
  case (Cons a as)
  let ?c2 = "c\<lparr>sleeps := sleeps c @ [RateLimitDelay], requests := requests c @ [url]\<rparr>"
  have "visited_urls (snd (fetch_attempts e url as (backoff e a ?c2))) = visited_urls c \<and>
        product_urls (snd (fetch_attempts e url as (backoff e a ?c2))) = product_urls c \<and>
        fetched (snd (fetch_attempts e url as (backoff e a ?c2))) = fetched c"
    using Cons.IH[of "backoff e a ?c2"] by (simp add: backoff_def)
  then show ?case
    by (simp add: Let_def split: outcome.splits)
qed

lemma fetch_page_frame:
  "visited_urls (snd (fetch_page e url c)) = visited_urls c \<and>
   product_urls (snd (fetch_page e url c)) = product_urls c \<and>
   fetched (snd (fetch_page e url c)) = fetched c @ [url]"
  using fetch_attempts_frame[of e url _ "c\<lparr>fetched := fetched c @ [url]\<rparr>"]
  by (simp add: fetch_page_def)




subsection \<open>The pagination rule\<close>











lemma digit_char_values:
  "digit_char 0 = CHR ''0''" "digit_char 1 = CHR ''1''" "digit_char 2 = CHR ''2''"
  "digit_char 3 = CHR ''3''" "digit_char 4 = CHR ''4''" "digit_char 5 = CHR ''5''"
  "digit_char 6 = CHR ''6''" "digit_char 7 = CHR ''7''" "digit_char 8 = CHR ''8''"
  "digit_char 9 = CHR ''9''"
  by code_simp+

lemma str_nat_digits: "c \<in> set (str_nat n) \<Longrightarrow> c \<in> set ''0123456789''"
proof (induction n rule: str_nat.induct)
  case (1 n)
  have d: "\<And>k. k < 10 \<Longrightarrow> digit_char k \<in> set ''0123456789''"
  proof -
    fix k :: nat assume "k < 10"
    then have "k \<in> {0,1,2,3,4,5,6,7,8,9}" by auto
    then show "digit_char k \<in> set ''0123456789''"
      using digit_char_values by auto
  qed
  show ?case
  proof (cases "n < 10")
    case True
    with 1 d[of n] show ?thesis by (simp add: str_nat.simps[of n])
  next
    case False
    with 1 d[of "n mod 10"] show ?thesis by (auto simp: str_nat.simps[of n])
  qed
qed






lemma crawl_page_state:
  assumes "url \<notin> visited_urls c"
    and "fetch_page e url (c\<lparr>visited_urls := insert url (visited_urls c)\<rparr>) = (html, c2)"
  shows "snd (crawl_page e url c) =
           (if html \<noteq> None \<and> html \<noteq> Some [] \<and> classify_url (stdlib e) url = Inr PRODUCT
            then c2\<lparr>product_urls := insert url (product_urls c2)\<rparr> else c2)"
  using assms by (simp add: crawl_page_def split: option.splits sum.splits)
















text \<open>
  The rule does not look at the category: after a crawl of \<open>telephones\<close> (two pages at
  most) has found a product, the crawl of \<open>vetements\<close>, whose first page has no link at
  all, requests page 2 of \<open>vetements\<close>.
\<close>

theorem shared_product_set_requests_page_two:
  "crawl_category site_shop 5 ''https://www.ouedkniss.com/telephones/1'' (Some 2) new_crawler =
     Returned {''https://www.ouedkniss.com/samsung-galaxy-d7''}
       \<lparr>visited_urls = {''https://www.ouedkniss.com/samsung-galaxy-d7'',
                         ''https://www.ouedkniss.com/telephones/1''},
        product_urls = {''https://www.ouedkniss.com/samsung-galaxy-d7''},
        fetched = [''https://www.ouedkniss.com/telephones/1'',
                   ''https://www.ouedkniss.com/samsung-galaxy-d7''],
        requests = [''https://www.ouedkniss.com/telephones/1'',
                    ''https://www.ouedkniss.com/samsung-galaxy-d7''],
        sleeps = [RateLimitDelay, RateLimitDelay]\<rparr> \<and>
   fetched (crawler_of
     (crawl_category site_shop 5 ''https://www.ouedkniss.com/vetements/1'' (Some 2)
        (crawler_of
           (crawl_category site_shop 5 ''https://www.ouedkniss.com/telephones/1'' (Some 2)
              new_crawler)))) =
     [''https://www.ouedkniss.com/telephones/1'', ''https://www.ouedkniss.com/samsung-galaxy-d7'',
      ''https://www.ouedkniss.com/vetements/1'', ''https://www.ouedkniss.com/vetements/2'']"
  by code_simp

subsection \<open>Fetches and the visited set\<close>

text \<open>
  Every fetch that \<open>crawl_page\<close> makes is of a URL it has just added to the visited
  set, so that a crawl of a category alone never fetches a URL twice.
\<close>

lemma crawl_page_fetches_unvisited:
  assumes "distinct (fetched c)" "set (fetched c) \<subseteq> visited_urls c"
  shows "distinct (fetched (snd (crawl_page e url c))) \<and>
         set (fetched (snd (crawl_page e url c))) \<subseteq> visited_urls (snd (crawl_page e url c))"
proof (cases "url \<in> visited_urls c")
  case True
  with assms show ?thesis by (simp add: crawl_page_def)
next
  case False
  let ?c1 = "c\<lparr>visited_urls := insert url (visited_urls c)\<rparr>"
  obtain html c2 where fp: "fetch_page e url ?c1 = (html, c2)"
    by (cases "fetch_page e url ?c1")
  have f: "fetched c2 = fetched c @ [url]" "visited_urls c2 = insert url (visited_urls c)"
    using fetch_page_frame[of e url ?c1] fp by simp_all
  have "url \<notin> set (fetched c)" using False assms(2) by auto
  with f assms show ?thesis
    by (auto simp: crawl_page_state[OF False fp])
qed

lemma loop_body_state: "snd (loop_body e bc q page c) = snd (crawl_page e (hd q) c)"
  by (simp add: loop_body_def Let_def split: prod.splits sum.splits)

lemma crawl_loop_fetches_unvisited:
  "distinct (fetched c) \<Longrightarrow> set (fetched c) \<subseteq> visited_urls c \<Longrightarrow>
   distinct (fetched (crawler_of (crawl_loop e bc mp n q page c))) \<and>
   set (fetched (crawler_of (crawl_loop e bc mp n q page c))) \<subseteq>
     visited_urls (crawler_of (crawl_loop e bc mp n q page c))"
proof (induction n arbitrary: q page c)
  case 0
  then show ?case by (simp add: crawler_of_def)
next
  case (Suc n)
  show ?case
  proof (cases "loop_cond mp q page")
    case False
    with Suc.prems show ?thesis by (simp add: crawler_of_def)
  next
    case True
    obtain r c1 where lb: "loop_body e bc q page c = (r, c1)" by (cases "loop_body e bc q page c")
    have c1: "c1 = snd (crawl_page e (hd q) c)"
      using loop_body_state[of e bc q page c] lb by simp
    have i: "distinct (fetched c1)" "set (fetched c1) \<subseteq> visited_urls c1"
      using crawl_page_fetches_unvisited[OF Suc.prems, of e "hd q"] c1 by simp_all
    show ?thesis
    proof (cases r)
      case (Inl x)
      with True lb i show ?thesis by (simp add: crawler_of_def)
    next
      case (Inr qp)
      obtain q' page' where qp: "qp = (q', page')" by (cases qp)
      show ?thesis
        using Suc.IH[OF i, of q' page'] True lb Inr qp by simp
    qed
  qed
qed

lemma crawl_category_fetches_once:
  assumes "distinct (fetched c)" "set (fetched c) \<subseteq> visited_urls c"
  shows "distinct (fetched (crawler_of (crawl_category e n category_url max_pages c)))"
proof (cases "extract_category_info (stdlib e) category_url")
  case (Inl x)
  with assms show ?thesis by (simp add: crawl_category_def crawler_of_def)
next
  case (Inr info)
  show ?thesis
  proof (cases info)
    case None
    with Inr assms show ?thesis by (simp add: crawl_category_def crawler_of_def)
  next
    case (Some ck)
    obtain categories k where "ck = (categories, k)" by (cases ck)
    with Inr Some show ?thesis
      using crawl_loop_fetches_unvisited[OF assms]
      by (simp add: crawl_category_def Let_def)
  qed
qed

text \<open>
  Claim C2 fails on the code. \<open>crawl_all_categories\<close> fetches the home page without
  adding it to the visited set, which \<open>crawl_page\<close> does for every URL it fetches. On
  the site whose category page links back to the home page, with one root and so one
  traversal, \<open>fetch_page\<close> is called twice on the home page.
\<close>

theorem home_page_fetched_twice:
  "fetched (crawler_of (crawl_all_categories site_looped 3 new_crawler)) =
     [''https://www.ouedkniss.com'', ''https://www.ouedkniss.com/informatique/1'',
      ''https://www.ouedkniss.com''] \<and>
   count_list (fetched (crawler_of (crawl_all_categories site_looped 3 new_crawler)))
     ''https://www.ouedkniss.com'' = 2"
  by code_simp

end
